theory Spec2Isabelle
  imports Complex_Main "HOL-Library.AList" "HOL-Library.Word"
begin

section \<open>JavaScript values\<close>

text \<open>
  The streaming consumer of \<^verbatim>\<open>webui/src/components/QueryInterface.jsx\<close> is duck-typed:
  it inspects whatever \<^verbatim>\<open>JSON.parse\<close> returns. A value of the program is therefore a
  JavaScript value. \<open>Num\<close> carries the exact value of a finite double. An object is its
  table of own properties; the program never enumerates one except to spread it, so the
  order of the table is not observed. A \<open>char\<close> stands for one code unit of a string.
\<close>

datatype jsval =
    Undefined
  | Null
  | Bool bool
  | Num rat
  | Str string
  | Arr "jsval list"
  | Obj "(string \<times> jsval) list"

fun truthy :: "jsval \<Rightarrow> bool" where
  "truthy Undefined = False"
| "truthy Null = False"
| "truthy (Bool b) = b"
| "truthy (Num r) = (r \<noteq> 0)"
| "truthy (Str s) = (s \<noteq> [])"
| "truthy (Arr xs) = True"
| "truthy (Obj kvs) = True"

text \<open>
  \<open>get_prop v k\<close> is the property read \<^verbatim>\<open>v.k\<close> on a value that is neither \<^verbatim>\<open>null\<close> nor
  \<^verbatim>\<open>undefined\<close> (there the read throws, and every caller below guards it), for the keys
  the program reads: none of them is an index or a member of a built-in prototype, so
  the read finds an own property of an object or nothing.
\<close>

fun get_prop :: "jsval \<Rightarrow> string \<Rightarrow> jsval" where
  "get_prop (Obj kvs) k = (case map_of kvs k of Some v \<Rightarrow> v | None \<Rightarrow> Undefined)"
| "get_prop v k = Undefined"

text \<open>\<^verbatim>\<open>a || b\<close>\<close>

definition js_or :: "jsval \<Rightarrow> jsval \<Rightarrow> jsval" where
  "js_or a b = (if truthy a then a else b)"

text \<open>\<^verbatim>\<open>v?.k\<close>\<close>

definition opt_prop :: "jsval \<Rightarrow> string \<Rightarrow> jsval" where
  "opt_prop v k = (if v = Null \<or> v = Undefined then Undefined else get_prop v k)"

text \<open>Decimal digits of an array index, as property keys are written.\<close>

function show_nat :: "nat \<Rightarrow> string" where
  "show_nat n =
     (if n < 10 then [char_of (48 + n)]
      else show_nat (n div 10) @ [char_of (48 + n mod 10)])"
  by pat_completeness auto
termination
  by (relation "measure id") auto

text \<open>
  The own enumerable properties an object spread \<^verbatim>\<open>{...v}\<close> copies: those of an object,
  the elements of an array and the code units of a string under their indices, nothing
  for any other value.
\<close>

fun js_spread :: "jsval \<Rightarrow> (string \<times> jsval) list" where
  "js_spread (Obj kvs) = kvs"
| "js_spread (Arr xs) = zip (map show_nat [0..<length xs]) xs"
| "js_spread (Str s) = zip (map show_nat [0..<length s]) (map (\<lambda>c. Str [c]) s)"
| "js_spread v = []"

text \<open>
  What the language does with doubles is not the program's code: formatting a number
  and adding two non-string primitives are taken from the environment, as is
  \<^verbatim>\<open>JSON.parse\<close> (\<open>None\<close> when it throws).
\<close>

record js_env =
  JSON_parse :: "string \<Rightarrow> jsval option"
  num_to_string :: "rat \<Rightarrow> string"
  num_add :: "jsval \<Rightarrow> jsval \<Rightarrow> jsval"

fun join_comma :: "string list \<Rightarrow> string" where
  "join_comma [] = []"
| "join_comma [s] = s"
| "join_comma (s # t # ss) = s @ '','' @ join_comma (t # ss)"

text \<open>The string conversion of template literals and of \<^verbatim>\<open>+\<close>.\<close>

fun js_to_string :: "(rat \<Rightarrow> string) \<Rightarrow> jsval \<Rightarrow> string" where
  "js_to_string ns Undefined = ''undefined''"
| "js_to_string ns Null = ''null''"
| "js_to_string ns (Bool b) = (if b then ''true'' else ''false'')"
| "js_to_string ns (Num r) = ns r"
| "js_to_string ns (Str s) = s"
| "js_to_string ns (Arr xs) =
     join_comma (map (\<lambda>x. if x = Undefined \<or> x = Null then [] else js_to_string ns x) xs)"
| "js_to_string ns (Obj kvs) = ''[object Object]''"

fun non_string_primitive :: "jsval \<Rightarrow> bool" where
  "non_string_primitive Undefined = True"
| "non_string_primitive Null = True"
| "non_string_primitive (Bool b) = True"
| "non_string_primitive (Num r) = True"
| "non_string_primitive v = False"

text \<open>\<^verbatim>\<open>a + b\<close>\<close>

definition js_plus :: "js_env \<Rightarrow> jsval \<Rightarrow> jsval \<Rightarrow> jsval" where
  "js_plus env a b =
     (if non_string_primitive a \<and> non_string_primitive b then num_add env a b
      else Str (js_to_string (num_to_string env) a @ js_to_string (num_to_string env) b))"

section \<open>String primitives\<close>

fun starts_with :: "string \<Rightarrow> string \<Rightarrow> bool" where
  "starts_with s [] = True"
| "starts_with [] (p # ps) = False"
| "starts_with (c # cs) (p # ps) = (c = p \<and> starts_with cs ps)"

text \<open>\<^verbatim>\<open>s.includes(pat)\<close>\<close>

fun js_includes :: "string \<Rightarrow> string \<Rightarrow> bool" where
  "js_includes [] pat = (pat = [])"
| "js_includes (c # cs) pat = (starts_with (c # cs) pat \<or> js_includes cs pat)"

text \<open>
  The white space and line terminators \<^verbatim>\<open>trim()\<close> strips, among the code units a
  \<open>char\<close> can hold: tab, line feed, vertical tab, form feed, carriage return, space and
  the no-break space.
\<close>

definition js_space :: "char \<Rightarrow> bool" where
  "js_space c = (c \<in> set [CHR 0x09, CHR 0x0A, CHR 0x0B, CHR 0x0C, CHR 0x0D, CHR 0x20, CHR 0xA0])"

definition js_trim :: "string \<Rightarrow> string" where
  "js_trim s = rev (dropWhile js_space (rev (dropWhile js_space s)))"

text \<open>\<^verbatim>\<open>s.split('\n')\<close>: never empty; the last element is what follows the last line feed.\<close>

fun split_nl :: "string \<Rightarrow> string list" where
  "split_nl [] = [[]]"
| "split_nl (c # cs) =
     (if c = CHR 0x0A then [] # split_nl cs
      else (case split_nl cs of [] \<Rightarrow> [[c]] | l # ls \<Rightarrow> (c # l) # ls))"

section \<open>Component state\<close>

text \<open>
  The \<^verbatim>\<open>useState\<close> cells of \<^verbatim>\<open>QueryInterface\<close>. \<open>result\<close>, \<open>error\<close> and \<open>kbMessage\<close> hold
  \<open>Null\<close> or a value; the streamed reasoning and the current step start as the empty
  string and may be set to any truthy value of a payload.
\<close>

record ui_state =
  question :: string
  databaseId :: string
  loading :: bool
  result :: jsval
  error :: jsval
  savingToKB :: bool
  kbMessage :: jsval
  streamingReasoning :: jsval
  currentStep :: jsval
  isStreaming :: bool
  activeTab :: string

section \<open>Classifying a payload\<close>

text \<open>
  The branches of the \<^verbatim>\<open>if\<close>/\<^verbatim>\<open>else if\<close> chain of \<^verbatim>\<open>handleAsk\<close> (lines 103 to 162), named
  after the update each one performs.
\<close>

datatype update_kind =
    StepNotice
  | ReasoningChunk
  | ReasoningFull
  | SqlProduced
  | SqlCorrected
  | ExplanationProduced
  | AnswerProduced
  | ExecutionOutcome
  | ExecutionFailed
  | FinalResult
  | GenericError

text \<open>
  \<^verbatim>\<open>data.message.includes('error')\<close> on a truthy message: a substring test on a string,
  a membership test on an array; on any other value \<^verbatim>\<open>includes\<close> is not a function, the
  call throws and the surrounding \<^verbatim>\<open>catch\<close> drops the payload.
\<close>

fun includes_error :: "jsval \<Rightarrow> bool" where
  "includes_error (Str s) = js_includes s ''error''"
| "includes_error (Arr xs) = List.member xs (Str ''error'')"
| "includes_error v = False"

text \<open>
  The conditions of the chain, in the order of the source. Reading a property of
  \<^verbatim>\<open>null\<close> throws at the first condition; the \<^verbatim>\<open>catch\<close> around the chain drops the payload.
\<close>

definition classify :: "jsval \<Rightarrow> update_kind option" where
  "classify data =
     (if data = Null \<or> data = Undefined then None
      else if truthy (get_prop data ''step'') then Some StepNotice
      else if truthy (get_prop data ''chunk'') then Some ReasoningChunk
      else if truthy (get_prop data ''reasoning'') then Some ReasoningFull
      else if truthy (get_prop data ''sql'') then Some SqlProduced
      else if truthy (get_prop data ''attempts'') then Some SqlCorrected
      else if truthy (get_prop data ''explanation'') then Some ExplanationProduced
      else if truthy (get_prop data ''natural_language_answer'') then Some AnswerProduced
      else if get_prop data ''row_count'' \<noteq> Undefined then Some ExecutionOutcome
      else if truthy (get_prop data ''error'') then Some ExecutionFailed
      else if truthy (get_prop data ''query_id'') then Some FinalResult
      else if truthy (get_prop data ''message'') \<and> includes_error (get_prop data ''message'')
        then Some GenericError
      else None)"

section \<open>Applying an update\<close>

text \<open>
  \<^verbatim>\<open>{ ...(prev?.metadata || {}), auto_fixed: true, fix_attempts: n }\<close>
\<close>

definition fixed_metadata :: "jsval \<Rightarrow> jsval \<Rightarrow> jsval" where
  "fixed_metadata prev n =
     Obj (AList.update ''fix_attempts'' n
           (AList.update ''auto_fixed'' (Bool True)
             (js_spread (js_or (opt_prop prev ''metadata'') (Obj [])))))"

text \<open>The check mark of the success message, as the bytes of its UTF-8 encoding.\<close>

definition check_mark :: string where
  "check_mark = [CHR 0xE2, CHR 0x9C, CHR 0x85]"

definition cross_mark :: string where
  "cross_mark = [CHR 0xE2, CHR 0x9D, CHR 0x8C]"

definition success_step :: "js_env \<Rightarrow> jsval \<Rightarrow> string" where
  "success_step env data =
     (let autoFixInfo =
        (if truthy (get_prop data ''auto_fixed'')
         then '' (auto-fixed in '' @ js_to_string (num_to_string env) (get_prop data ''fix_attempts'')
              @ '' attempts)''
         else [])
      in check_mark @ '' Query executed successfully! ''
         @ js_to_string (num_to_string env) (get_prop data ''row_count'')
         @ '' rows returned'' @ autoFixInfo)"

text \<open>The bodies of the branches, in the order of the source.\<close>

fun apply_update :: "js_env \<Rightarrow> update_kind \<Rightarrow> jsval \<Rightarrow> ui_state \<Rightarrow> ui_state" where
  "apply_update env StepNotice data st =
     st\<lparr>currentStep := js_or (get_prop data ''message'') (get_prop data ''step'')\<rparr>"
| "apply_update env ReasoningChunk data st =
     st\<lparr>streamingReasoning := js_plus env (streamingReasoning st) (get_prop data ''chunk'')\<rparr>"
| "apply_update env ReasoningFull data st =
     st\<lparr>streamingReasoning := get_prop data ''reasoning''\<rparr>"
| "apply_update env SqlProduced data st =
     st\<lparr>result := Obj (AList.update ''sql'' (get_prop data ''sql'') (js_spread (result st)))\<rparr>"
| "apply_update env SqlCorrected data st =
     st\<lparr>result :=
          Obj (AList.update ''metadata'' (fixed_metadata (result st) (get_prop data ''attempts''))
                (AList.update ''sql'' (get_prop data ''sql'')
                  (js_spread (js_or (result st) (Obj [])))))\<rparr>"
| "apply_update env ExplanationProduced data st =
     st\<lparr>result :=
          Obj (AList.update ''sql_explanation'' (get_prop data ''explanation'')
                (js_spread (result st))),
        currentStep := Str []\<rparr>"
| "apply_update env AnswerProduced data st =
     st\<lparr>result :=
          Obj (AList.update ''natural_language_answer'' (get_prop data ''natural_language_answer'')
                (js_spread (result st))),
        currentStep := Str []\<rparr>"
| "apply_update env ExecutionOutcome data st =
     (let st1 = st\<lparr>currentStep := Str (success_step env data)\<rparr>
      in if truthy (get_prop data ''auto_fixed'')
         then st1\<lparr>result :=
                Obj (AList.update ''metadata''
                      (fixed_metadata (result st) (get_prop data ''fix_attempts''))
                      (js_spread (js_or (result st) (Obj []))))\<rparr>
         else st1)"
| "apply_update env ExecutionFailed data st =
     st\<lparr>error := get_prop data ''error'', isStreaming := False, loading := False\<rparr>"
| "apply_update env FinalResult data st =
     st\<lparr>result := data, isStreaming := False, loading := False, currentStep := Str []\<rparr>"
| "apply_update env GenericError data st =
     st\<lparr>error := get_prop data ''message'', isStreaming := False, loading := False\<rparr>"

text \<open>One decoded payload: the whole chain.\<close>

definition handle_data :: "js_env \<Rightarrow> jsval \<Rightarrow> ui_state \<Rightarrow> ui_state" where
  "handle_data env data st =
     (case classify data of None \<Rightarrow> st | Some k \<Rightarrow> apply_update env k data st)"

section \<open>The read loop\<close>

text \<open>
  The local variables of the loop of \<^verbatim>\<open>handleAsk\<close> (lines 75 to 168) and the component
  state it updates. \<open>emitted\<close> is a ghost log, not a variable of the program: it records,
  in order, each payload text handed to \<^verbatim>\<open>JSON.parse\<close> with the event name current at
  that moment, so that properties of the sequence of frames can be stated.
\<close>

record loop_state =
  buffer :: string
  currentEvent :: jsval
  ui :: ui_state
  emitted :: "(jsval \<times> string) list"

text \<open>The body of \<^verbatim>\<open>for (const line of lines)\<close>. A payload that fails to parse is logged
  to the console and dropped.\<close>

definition process_line :: "js_env \<Rightarrow> string \<Rightarrow> loop_state \<Rightarrow> loop_state" where
  "process_line env line ls =
     (if js_trim line = [] then ls\<lparr>currentEvent := Null\<rparr>
      else if starts_with line ''event:'' then ls\<lparr>currentEvent := Str (js_trim (drop 6 line))\<rparr>
      else if starts_with line ''data:'' then
        (let payload = js_trim (drop 5 line);
             ls1 = ls\<lparr>emitted := emitted ls @ [(currentEvent ls, payload)]\<rparr>
         in case JSON_parse env payload of
              None \<Rightarrow> ls1
            | Some data \<Rightarrow> ls1\<lparr>ui := handle_data env data (ui ls1)\<rparr>)
      else ls)"

text \<open>
  One decoded chunk: \<^verbatim>\<open>buffer += text; lines = buffer.split('\n'); buffer = lines.pop() || ''\<close>,
  then the lines in order.
\<close>

definition process_chunk :: "js_env \<Rightarrow> string \<Rightarrow> loop_state \<Rightarrow> loop_state" where
  "process_chunk env text ls =
     (let lines = split_nl (buffer ls @ text)
      in fold (process_line env) (butlast lines) (ls\<lparr>buffer := last lines\<rparr>))"

text \<open>
  \<^verbatim>\<open>decoder.decode(value, { stream: true })\<close> belongs to the platform: a decoder is a
  function from its state and a chunk of bytes to the decoded text and its next state
  (the bytes of an unfinished character are held in the state).
\<close>

type_synonym 'd text_decoder = "'d \<Rightarrow> 8 word list \<Rightarrow> string \<times> 'd"

text \<open>\<^verbatim>\<open>while (true)\<close> over the chunks the reader yields until \<^verbatim>\<open>done\<close>.\<close>

fun read_loop ::
  "js_env \<Rightarrow> 'd text_decoder \<Rightarrow> 8 word list list \<Rightarrow> 'd \<Rightarrow> loop_state \<Rightarrow> loop_state" where
  "read_loop env dec [] d ls = ls"
| "read_loop env dec (v # rest) d ls =
     (case dec d v of (text, d') \<Rightarrow> read_loop env dec rest d' (process_chunk env text ls))"

section \<open>The ask operation\<close>

text \<open>
  What the transport does is the input: \<^verbatim>\<open>fetch\<close> rejects with a message, or answers
  with a status and a body whose reader yields chunks and then reports \<^verbatim>\<open>done\<close> or
  rejects, or answers with a status and no body (\<^verbatim>\<open>response.body\<close> is \<^verbatim>\<open>null\<close>, as for the
  statuses 204 and 205). In the last case \<^verbatim>\<open>response.body.getReader()\<close> throws once the
  status has passed the test of \<^verbatim>\<open>response.ok\<close>; \<open>NoBody\<close> carries the message of that
  error. The errors thrown inside \<^verbatim>\<open>try\<close> are native ones, which carry a message and no
  \<^verbatim>\<open>response\<close>.
\<close>

datatype stream_end = Done | ReadFailed string

datatype response =
    Rejected string
  | Response nat "8 word list list" stream_end
  | NoBody nat string

definition catch_error :: "string \<Rightarrow> ui_state \<Rightarrow> ui_state" where
  "catch_error msg st =
     st\<lparr>error := js_or (js_or Undefined (Str msg)) (Str ''An error occurred''),
        isStreaming := False\<rparr>"

definition finally_block :: "ui_state \<Rightarrow> ui_state" where
  "finally_block st = st\<lparr>loading := False\<rparr>"

definition reset_state :: "ui_state \<Rightarrow> ui_state" where
  "reset_state st =
     st\<lparr>loading := True, error := Null, result := Null, streamingReasoning := Str [],
        currentStep := Str [], isStreaming := True, activeTab := ''reasoning''\<rparr>"

definition initial_loop :: "ui_state \<Rightarrow> loop_state" where
  "initial_loop st = \<lparr>buffer = [], currentEvent = Null, ui = st, emitted = []\<rparr>"

definition handleAsk ::
  "js_env \<Rightarrow> 'd text_decoder \<Rightarrow> 'd \<Rightarrow> response \<Rightarrow> ui_state \<Rightarrow> ui_state" where
  "handleAsk env dec d0 resp st =
     (if js_trim (question st) = [] \<or> js_trim (databaseId st) = []
      then st\<lparr>error := Str ''Please enter both a question and select a database''\<rparr>
      else
        (case resp of
           Rejected msg \<Rightarrow> finally_block (catch_error msg (reset_state st))
         | Response status chunks e \<Rightarrow>
             if \<not> (200 \<le> status \<and> status \<le> 299)
             then finally_block (catch_error (''HTTP error! status: '' @ show_nat status) (reset_state st))
             else
               (let st1 = ui (read_loop env dec chunks d0 (initial_loop (reset_state st)))
                in case e of
                     Done \<Rightarrow> finally_block st1
                   | ReadFailed msg \<Rightarrow> finally_block (catch_error msg st1))
         | NoBody status msg \<Rightarrow>
             if \<not> (200 \<le> status \<and> status \<le> 299)
             then finally_block (catch_error (''HTTP error! status: '' @ show_nat status) (reset_state st))
             else finally_block (catch_error msg (reset_state st))))"

section \<open>Saving to the knowledge base\<close>

datatype save_outcome = SaveOk | SaveFailed string

text \<open>
  \<open>saveToKnowledgeBase\<close> returns the body of the request it posts, or \<open>None\<close> when it
  returns before posting, and the state once the request has settled.
\<close>

definition saveToKnowledgeBase :: "save_outcome \<Rightarrow> ui_state \<Rightarrow> jsval option \<times> ui_state" where
  "saveToKnowledgeBase outcome st =
     (if \<not> truthy (result st) \<or> \<not> truthy (get_prop (result st) ''sql'')
         \<or> \<not> truthy (get_prop (result st) ''question'')
      then (None, st)
      else
        (Some (Obj [(''database_id'', Str (databaseId st)),
                    (''question'', get_prop (result st) ''question''),
                    (''sql'', get_prop (result st) ''sql''),
                    (''description'', js_or (get_prop (result st) ''sql_explanation'') Null)]),
         st\<lparr>savingToKB := False,
            kbMessage :=
              (case outcome of
                 SaveOk \<Rightarrow>
                   Obj [(''type'', Str ''success''),
                        (''text'', Str (check_mark @ '' Saved to Knowledge Base!''))]
               | SaveFailed detail \<Rightarrow>
                   Obj [(''type'', Str ''error''),
                        (''text'', Str (cross_mark @ '' Failed to save: '' @ detail))])\<rparr>))"

section \<open>What the component renders\<close>

text \<open>The three conditional blocks of the markup (lines 282 to 299).\<close>

definition error_shown :: "ui_state \<Rightarrow> bool" where
  "error_shown st = truthy (error st)"

definition step_shown :: "ui_state \<Rightarrow> bool" where
  "step_shown st = (isStreaming st \<and> truthy (currentStep st))"

definition results_shown :: "ui_state \<Rightarrow> bool" where
  "results_shown st = (truthy (result st) \<or> isStreaming st)"

text \<open>
  The only place that calls \<open>saveToKnowledgeBase\<close> is the button of the SQL tab (lines
  359 to 372), inside the results block: it is rendered when the result has a truthy
  \<^verbatim>\<open>sql\<close> and \<^verbatim>\<open>result?.execution_result?.success\<close> is truthy, and it is disabled while a
  save is under way.
\<close>

definition save_button_enabled :: "ui_state \<Rightarrow> bool" where
  "save_button_enabled st =
     (results_shown st
      \<and> truthy (opt_prop (result st) ''sql'')
      \<and> truthy (opt_prop (opt_prop (result st) ''execution_result'') ''success'')
      \<and> \<not> savingToKB st)"

text \<open>
  The program keeps no status field. The status of an ask operation is read off the
  cells: streaming while the flag is on, failed when an error is set, succeeded when a
  result is held and neither is the case.
\<close>

datatype status = Idle | Streaming | Succeeded | Failed

definition status_of :: "ui_state \<Rightarrow> status" where
  "status_of st =
     (if isStreaming st then Streaming
      else if truthy (error st) then Failed
      else if truthy (result st) then Succeeded
      else Idle)"

section \<open>Notions used to state the properties\<close>

text \<open>The lines of a text that a line feed has terminated, and what follows the last one.\<close>

definition complete_lines :: "string \<Rightarrow> string list" where
  "complete_lines t = butlast (split_nl t)"

definition residue :: "string \<Rightarrow> string" where
  "residue t = last (split_nl t)"

text \<open>The texts a decoder returns for a sequence of chunks.\<close>

fun decode_all :: "'d text_decoder \<Rightarrow> 'd \<Rightarrow> 8 word list list \<Rightarrow> string list" where
  "decode_all dec d [] = []"
| "decode_all dec d (v # rest) = (case dec d v of (text, d') \<Rightarrow> text # decode_all dec d' rest)"

text \<open>
  The contract of a streaming decoder: decoding a sequence of bytes in two pieces gives
  the same text and the same final state as decoding it in one, and decoding nothing
  gives nothing.
\<close>

definition streaming_decoder :: "'d text_decoder \<Rightarrow> bool" where
  "streaming_decoder dec =
     ((\<forall>d. dec d [] = ([], d)) \<and>
      (\<forall>d a b. dec d (a @ b) =
         (case dec d a of (t1, d1) \<Rightarrow> (case dec d1 b of (t2, d2) \<Rightarrow> (t1 @ t2, d2)))))"

text \<open>A line that only sets the event name.\<close>

definition is_event_line :: "string \<Rightarrow> bool" where
  "is_event_line line = (js_trim line \<noteq> [] \<and> starts_with line ''event:'')"

definition without_events :: "string list \<Rightarrow> string list" where
  "without_events lines = filter (\<lambda>l. \<not> is_event_line l) lines"

text \<open>The updates that end an ask operation.\<close>

fun terminal :: "update_kind \<Rightarrow> bool" where
  "terminal ExecutionFailed = True"
| "terminal FinalResult = True"
| "terminal GenericError = True"
| "terminal k = False"

text \<open>The update a line of the stream applies, if any.\<close>

definition line_update :: "js_env \<Rightarrow> string \<Rightarrow> update_kind option" where
  "line_update env line =
     (if js_trim line = [] \<or> starts_with line ''event:'' \<or> \<not> starts_with line ''data:''
      then None
      else (case JSON_parse env (js_trim (drop 5 line)) of
              None \<Rightarrow> None
            | Some data \<Rightarrow> classify data))"

text \<open>Two loop states that agree on the component state and on the payloads dispatched,
  whatever event names went with them.\<close>

definition same_view :: "loop_state \<Rightarrow> loop_state \<Rightarrow> bool" where
  "same_view a b = (ui a = ui b \<and> map snd (emitted a) = map snd (emitted b))"

text \<open>No line of the list applies a terminal update.\<close>

definition no_terminal :: "js_env \<Rightarrow> string list \<Rightarrow> bool" where
  "no_terminal env lines =
     list_all (\<lambda>l. case line_update env l of None \<Rightarrow> True | Some k \<Rightarrow> \<not> terminal k) lines"

text \<open>First-match precedence over an ordered list of tests.\<close>

fun first_match :: "('k \<times> ('a \<Rightarrow> bool)) list \<Rightarrow> 'a \<Rightarrow> 'k option" where
  "first_match [] d = None"
| "first_match ((k, test) # rest) d = (if test d then Some k else first_match rest d)"

text \<open>The order and the tests of the chain of the source.\<close>

definition code_order :: "(update_kind \<times> (jsval \<Rightarrow> bool)) list" where
  "code_order =
     [(StepNotice, \<lambda>d. truthy (get_prop d ''step'')),
      (ReasoningChunk, \<lambda>d. truthy (get_prop d ''chunk'')),
      (ReasoningFull, \<lambda>d. truthy (get_prop d ''reasoning'')),
      (SqlProduced, \<lambda>d. truthy (get_prop d ''sql'')),
      (SqlCorrected, \<lambda>d. truthy (get_prop d ''attempts'')),
      (ExplanationProduced, \<lambda>d. truthy (get_prop d ''explanation'')),
      (AnswerProduced, \<lambda>d. truthy (get_prop d ''natural_language_answer'')),
      (ExecutionOutcome, \<lambda>d. get_prop d ''row_count'' \<noteq> Undefined),
      (ExecutionFailed, \<lambda>d. truthy (get_prop d ''error'')),
      (FinalResult, \<lambda>d. truthy (get_prop d ''query_id'')),
      (GenericError, \<lambda>d. truthy (get_prop d ''message'') \<and> includes_error (get_prop d ''message''))]"

text \<open>
  The precedence as the specification words it (section 4.2), over the presence of
  fields: query id, error, row count, attempts, explanation, answer, sql, reasoning,
  chunk, step, message with an error indicator. It is stated only to be compared with
  \<open>classify\<close>.
\<close>

definition present :: "string \<Rightarrow> jsval \<Rightarrow> bool" where
  "present k d = (get_prop d k \<noteq> Undefined)"

definition spec_order :: "(update_kind \<times> (jsval \<Rightarrow> bool)) list" where
  "spec_order =
     [(FinalResult, present ''query_id''),
      (GenericError, present ''error''),
      (ExecutionOutcome, present ''row_count''),
      (SqlCorrected, present ''attempts''),
      (ExplanationProduced, present ''explanation''),
      (AnswerProduced, present ''natural_language_answer''),
      (SqlProduced, present ''sql''),
      (ReasoningFull, present ''reasoning''),
      (ReasoningChunk, present ''chunk''),
      (StepNotice, present ''step''),
      (GenericError, \<lambda>d. present ''message'' d \<and> includes_error (get_prop d ''message''))]"

definition spec_classify :: "jsval \<Rightarrow> update_kind option" where
  "spec_classify d = first_match spec_order d"

section \<open>A decoder and an environment for examples\<close>

text \<open>
  A UTF-8 decoder for the code points a \<open>char\<close> can hold, byte by byte: an ASCII byte
  is its character, the lead bytes \<open>0xC2\<close> and \<open>0xC3\<close> wait for their continuation
  byte, and anything else is replaced by a question mark. The state is the pending
  lead byte.
\<close>

definition utf8_step :: "8 word option \<Rightarrow> 8 word \<Rightarrow> string \<times> 8 word option" where
  "utf8_step pending b =
     (case pending of
        Some lead \<Rightarrow>
          if 0x80 \<le> b \<and> b \<le> 0xBF
          then ([char_of (unat (lead - 0xC2) * 64 + unat b)], None)
          else if b < 0x80 then ([CHR ''?'', char_of (unat b)], None)
          else if b = 0xC2 \<or> b = 0xC3 then ([CHR ''?''], Some b)
          else ([CHR ''?'', CHR ''?''], None)
      | None \<Rightarrow>
          if b < 0x80 then ([char_of (unat b)], None)
          else if b = 0xC2 \<or> b = 0xC3 then ([], Some b)
          else ([CHR ''?''], None))"

fun utf8_decode :: "8 word option text_decoder" where
  "utf8_decode d [] = ([], d)"
| "utf8_decode d (b # bs) =
     (case utf8_step d b of (t, d') \<Rightarrow> (case utf8_decode d' bs of (ts, d'') \<Rightarrow> (t @ ts, d'')))"

definition utf8_bytes :: "string \<Rightarrow> 8 word list" where
  "utf8_bytes s = map (\<lambda>c. of_nat (of_char c)) s"

text \<open>
  \<^verbatim>\<open>JSON.parse\<close> on the payload texts of the examples, and the number primitives on the
  natural numbers.
\<close>

definition sample_payloads :: "(string \<times> jsval) list" where
  \<open>sample_payloads =
     [(''{"step":"parsing"}'', Obj [(''step'', Str ''parsing'')]),
      (''{"chunk":"A"}'', Obj [(''chunk'', Str ''A'')]),
      (''{"chunk":"B"}'', Obj [(''chunk'', Str ''B'')]),
      (''{"reasoning":"C"}'', Obj [(''reasoning'', Str ''C'')]),
      (''{"sql":"SELECT 1"}'', Obj [(''sql'', Str ''SELECT 1'')]),
      (''{"attempts":2}'', Obj [(''attempts'', Num 2)]),
      (''{"attempts":2,"sql":"SELECT 1 FIX"}'',
         Obj [(''attempts'', Num 2), (''sql'', Str ''SELECT 1 FIX'')]),
      (''{"row_count":10,"execution_time_ms":12.4}'',
         Obj [(''row_count'', Num 10), (''execution_time_ms'', Num (62 / 5))]),
      (''{"error":"syntax error"}'', Obj [(''error'', Str ''syntax error'')]),
      (''{"query_id":"q-1"}'', Obj [(''query_id'', Str ''q-1'')]),
      (''{"query_id":"q-1","question":"top 10 customers"}'',
         Obj [(''query_id'', Str ''q-1''), (''question'', Str ''top 10 customers'')]),
      (''{"query_id":"q-1","question":"top 10 customers","execution_result":{"success":true}}'',
         Obj [(''query_id'', Str ''q-1''), (''question'', Str ''top 10 customers''),
              (''execution_result'', Obj [(''success'', Bool True)])]),
      (''null'', Null)]\<close>

definition sample_env :: js_env where
  "sample_env =
     \<lparr>JSON_parse = map_of sample_payloads,
      num_to_string = (\<lambda>r. if r \<ge> 0 \<and> of_int \<lfloor>r\<rfloor> = r then show_nat (nat \<lfloor>r\<rfloor>) else ''NaN''),
      num_add = (\<lambda>a b. case (a, b) of (Num x, Num y) \<Rightarrow> Num (x + y) | _ \<Rightarrow> Undefined)\<rparr>"

text \<open>The initial values of the cells, and the state once a question and a database are entered.\<close>

definition initial_state :: ui_state where
  "initial_state =
     \<lparr>question = [], databaseId = [], loading = False, result = Null, error = Null,
      savingToKB = False, kbMessage = Null, streamingReasoning = Str [],
      currentStep = Str [], isStreaming = False, activeTab = ''reasoning''\<rparr>"

definition asked_state :: ui_state where
  "asked_state = initial_state\<lparr>question := ''top 10 customers'', databaseId := ''db1''\<rparr>"

section \<open>Example streams\<close>

definition nl :: string where
  "nl = [CHR 0x0A]"

text \<open>The bytes of one frame: a data line and the blank line that ends it.\<close>

definition sse_frame :: "string \<Rightarrow> 8 word list" where
  "sse_frame payload = utf8_bytes (''data: '' @ payload @ nl @ nl)"

definition error_only :: "8 word list list" where
  \<open>error_only = [sse_frame ''{"error":"syntax error"}'']\<close>

definition error_then_sql :: "8 word list list" where
  \<open>error_then_sql = [sse_frame ''{"error":"syntax error"}'', sse_frame ''{"sql":"SELECT 1"}'']\<close>

definition sql_then_error :: "8 word list list" where
  \<open>sql_then_error = [sse_frame ''{"sql":"SELECT 1"}'', sse_frame ''{"error":"syntax error"}'']\<close>

definition step_then_sql :: "8 word list list" where
  \<open>step_then_sql = [sse_frame ''{"step":"parsing"}'', sse_frame ''{"sql":"SELECT 1"}'']\<close>

definition final_sql_error :: "8 word list list" where
  \<open>final_sql_error =
     [sse_frame ''{"query_id":"q-1","question":"top 10 customers","execution_result":{"success":true}}'',
      sse_frame ''{"sql":"SELECT 1"}'',
      sse_frame ''{"error":"syntax error"}'']\<close>

text \<open>
  One stream cut in two ways: in one chunk, and in three chunks cut inside the two
  bytes of a character and inside the data line.
\<close>

definition whole_chunk :: "8 word list list" where
  \<open>whole_chunk =
     [utf8_bytes ''event: caf'' @ [0xC3, 0xA9]
        @ utf8_bytes (nl @ ''data: {"chunk":"A"}'' @ nl @ nl)]\<close>

definition split_chunks :: "8 word list list" where
  \<open>split_chunks =
     [utf8_bytes ''event: caf'' @ [0xC3],
      [0xA9] @ utf8_bytes (nl @ ''data: {"chu''),
      utf8_bytes (''nk":"A"}'' @ nl @ nl)]\<close>

text \<open>The same frame with and without an event line.\<close>

definition named_frame :: "8 word list list" where
  \<open>named_frame = [utf8_bytes (''event: reasoning'' @ nl @ ''data: {"chunk":"A"}'' @ nl @ nl)]\<close>

definition unnamed_frame :: "8 word list list" where
  \<open>unnamed_frame = [sse_frame ''{"chunk":"A"}'']\<close>

section \<open>Lines and chunks\<close>

lemma split_nl_not_Nil: "split_nl s \<noteq> []"
  by (induction s) (auto split: list.splits)

lemma split_nl_append:
  "split_nl (a @ b) = butlast (split_nl a) @ split_nl (last (split_nl a) @ b)"
proof (induction a)
  case Nil
  show ?case by simp
next
  case (Cons c a)
  obtain l ls where sa: "split_nl a = l # ls"
    using split_nl_not_Nil [of a] by (cases "split_nl a") auto
  show ?case
  proof (cases "c = CHR 0x0A")
    case True
    then show ?thesis using Cons sa by simp
  next
    case False
    show ?thesis
    proof (cases ls)
      case Nil
      then show ?thesis using Cons sa False by simp
    next
      case (Cons m ms)
      then show ?thesis using Cons.IH sa False by simp
    qed
  qed
qed

lemma complete_lines_append:
  "complete_lines (a @ b) = complete_lines a @ complete_lines (residue a @ b)"
  unfolding complete_lines_def residue_def
  by (subst split_nl_append) (simp add: butlast_append split_nl_not_Nil)

lemma residue_append: "residue (a @ b) = residue (residue a @ b)"
  unfolding residue_def
  by (subst split_nl_append) (simp add: split_nl_not_Nil)

lemma split_nl_no_newline: "CHR 0x0A \<notin> set s \<Longrightarrow> split_nl s = [s]"
  by (induction s) auto

lemma last_split_nl_no_newline: "CHR 0x0A \<notin> set (last (split_nl s))"
proof (induction s)
  case Nil
  show ?case by simp
next
  case (Cons c s)
  then show ?case
    using split_nl_not_Nil [of s] by (cases "split_nl s") (auto split: list.splits)
qed

lemma residue_no_newline: "CHR 0x0A \<notin> set (residue t)"
  by (simp add: residue_def last_split_nl_no_newline)

text \<open>A line never reads or writes the buffer.\<close>

lemma process_line_buffer:
  "process_line env l (ls\<lparr>buffer := b\<rparr>) = (process_line env l ls)\<lparr>buffer := b\<rparr>"
  by (simp add: process_line_def Let_def split: option.splits)

lemma fold_process_line_buffer:
  "fold (process_line env) lines (ls\<lparr>buffer := b\<rparr>)
     = (fold (process_line env) lines ls)\<lparr>buffer := b\<rparr>"
  by (induction lines arbitrary: ls) (simp_all add: process_line_buffer)

lemma process_chunk_lines:
  "process_chunk env t ls =
     (fold (process_line env) (complete_lines (buffer ls @ t)) ls)
       \<lparr>buffer := residue (buffer ls @ t)\<rparr>"
  by (simp add: process_chunk_def Let_def complete_lines_def residue_def fold_process_line_buffer)

lemma ui_process_chunk:
  "ui (process_chunk env t ls) = ui (fold (process_line env) (complete_lines (buffer ls @ t)) ls)"
  by (simp add: process_chunk_lines)

text \<open>
  The loop over chunks is the loop over the terminated lines of their concatenation;
  the buffer holds what follows the last line feed.
\<close>

lemma fold_process_chunk_lines:
  "CHR 0x0A \<notin> set (buffer ls) \<Longrightarrow>
   fold (process_chunk env) ts ls =
     (fold (process_line env) (complete_lines (buffer ls @ concat ts)) ls)
       \<lparr>buffer := residue (buffer ls @ concat ts)\<rparr>"
proof (induction ts arbitrary: ls)
  case Nil
  then show ?case by (simp add: complete_lines_def residue_def split_nl_no_newline)
next
  case (Cons t ts)
  have nb: "CHR 0x0A \<notin> set (buffer (process_chunk env t ls))"
    by (simp add: process_chunk_lines residue_no_newline)
  have "fold (process_chunk env) (t # ts) ls = fold (process_chunk env) ts (process_chunk env t ls)"
    by simp
  also have "\<dots> = (fold (process_line env)
        (complete_lines (residue (buffer ls @ t) @ concat ts))
        (fold (process_line env) (complete_lines (buffer ls @ t)) ls))
       \<lparr>buffer := residue (residue (buffer ls @ t) @ concat ts)\<rparr>"
    by (simp add: Cons.IH [OF nb]) (simp add: process_chunk_lines fold_process_line_buffer)
  also have "\<dots> = (fold (process_line env) (complete_lines ((buffer ls @ t) @ concat ts)) ls)
       \<lparr>buffer := residue ((buffer ls @ t) @ concat ts)\<rparr>"
    by (simp only: complete_lines_append [of "buffer ls @ t"] residue_append [of "buffer ls @ t"]
          fold_append o_apply)
  finally show ?case by simp
qed

lemma read_loop_decode_all:
  "read_loop env dec cs d ls = fold (process_chunk env) (decode_all dec d cs) ls"
  by (induction cs arbitrary: d ls) (simp_all split: prod.splits)

lemma read_loop_lines:
  "read_loop env dec cs d (initial_loop st) =
     (fold (process_line env) (complete_lines (concat (decode_all dec d cs))) (initial_loop st))
       \<lparr>buffer := residue (concat (decode_all dec d cs))\<rparr>"
  using fold_process_chunk_lines [of "initial_loop st" env "decode_all dec d cs"]
  by (simp add: read_loop_decode_all initial_loop_def)

lemma ui_read_loop_lines:
  "ui (read_loop env dec cs d (initial_loop st)) =
     ui (fold (process_line env) (complete_lines (concat (decode_all dec d cs))) (initial_loop st))"
  by (simp add: read_loop_lines)

lemma decode_all_concat:
  assumes "streaming_decoder dec"
  shows "concat (decode_all dec d cs) = fst (dec d (concat cs))"
proof (induction cs arbitrary: d)
  case Nil
  show ?case using assms by (simp add: streaming_decoder_def)
next
  case (Cons v vs)
  obtain t d' where dv: "dec d v = (t, d')" by (cases "dec d v")
  have "dec d (v @ concat vs) = (case dec d' (concat vs) of (t2, d2) \<Rightarrow> (t @ t2, d2))"
    using assms dv unfolding streaming_decoder_def by (metis (no_types, lifting) case_prod_conv)
  then show ?case using dv Cons.IH [of d'] by (simp split: prod.splits)
qed

lemma utf8_decode_append:
  "utf8_decode d (a @ b) =
     (case utf8_decode d a of (t1, d1) \<Rightarrow> (case utf8_decode d1 b of (t2, d2) \<Rightarrow> (t1 @ t2, d2)))"
  by (induction a arbitrary: d) (simp_all split: prod.splits)

lemma utf8_decode_streaming: "streaming_decoder utf8_decode"
  by (simp add: streaming_decoder_def utf8_decode_append)

section \<open>Event lines\<close>

lemma process_line_same_view:
  "same_view a b \<Longrightarrow> same_view (process_line env l a) (process_line env l b)"
  by (simp add: same_view_def process_line_def Let_def split: option.splits)

lemma process_event_line: "is_event_line l \<Longrightarrow> same_view (process_line env l a) a"
  by (simp add: same_view_def process_line_def is_event_line_def)

lemma same_view_trans: "same_view a b \<Longrightarrow> same_view b c \<Longrightarrow> same_view a c"
  by (simp add: same_view_def)

lemma same_view_sym: "same_view a b \<Longrightarrow> same_view b a"
  by (simp add: same_view_def)

lemma fold_without_events:
  "same_view a b \<Longrightarrow>
   same_view (fold (process_line env) lines a) (fold (process_line env) (without_events lines) b)"
proof (induction lines arbitrary: a b)
  case Nil
  then show ?case by (simp add: without_events_def)
next
  case (Cons l lines)
  show ?case
  proof (cases "is_event_line l")
    case True
    have "same_view (process_line env l a) b"
      using process_event_line [OF True] Cons.prems same_view_trans by blast
    from Cons.IH [OF this] show ?thesis using True by (simp add: without_events_def)
  next
    case False
    have "same_view (process_line env l a) (process_line env l b)"
      using Cons.prems by (rule process_line_same_view)
    from Cons.IH [OF this] show ?thesis using False by (simp add: without_events_def)
  qed
qed

lemma same_view_read_loop:
  "same_view (read_loop env dec cs d (initial_loop st))
     (fold (process_line env) (without_events (complete_lines (concat (decode_all dec d cs))))
        (initial_loop st))"
proof -
  have "same_view (initial_loop st) (initial_loop st)" by (simp add: same_view_def)
  from fold_without_events [OF this]
  show ?thesis by (simp add: read_loop_lines same_view_def)
qed

section \<open>What each kind of update touches\<close>

lemma classify_ExecutionFailed:
  "classify d = Some ExecutionFailed \<Longrightarrow> truthy (get_prop d ''error'')"
  by (simp add: classify_def split: if_splits)

lemma classify_GenericError:
  "classify d = Some GenericError \<Longrightarrow> truthy (get_prop d ''message'')"
  by (simp add: classify_def split: if_splits)

lemma classify_FinalResult:
  "classify d = Some FinalResult \<Longrightarrow> truthy (get_prop d ''query_id'')"
  by (simp add: classify_def split: if_splits)

lemma metadata_of_fixed:
  "get_prop (fixed_metadata prev n) ''auto_fixed'' = Bool True
   \<and> get_prop (fixed_metadata prev n) ''fix_attempts'' = n"
  by (simp add: fixed_metadata_def update_conv')

text \<open>Once an error is set and the streaming flag is off, both stay so.\<close>

lemma apply_update_failed:
  assumes "classify d = Some k" and "truthy (error st)" and "\<not> isStreaming st"
  shows "truthy (error (apply_update env k d st)) \<and> \<not> isStreaming (apply_update env k d st)"
  using assms classify_ExecutionFailed [of d] classify_GenericError [of d]
  by (cases k) (simp_all add: Let_def)

lemma handle_data_failed:
  "truthy (error st) \<Longrightarrow> \<not> isStreaming st \<Longrightarrow>
   truthy (error (handle_data env d st)) \<and> \<not> isStreaming (handle_data env d st)"
  using apply_update_failed [of d _ st env]
  by (simp add: handle_data_def split: option.splits)

lemma process_line_failed:
  "truthy (error (ui ls)) \<Longrightarrow> \<not> isStreaming (ui ls) \<Longrightarrow>
   truthy (error (ui (process_line env l ls))) \<and> \<not> isStreaming (ui (process_line env l ls))"
  using handle_data_failed [of "ui ls" env]
  by (simp add: process_line_def Let_def split: option.splits)

lemma fold_process_line_failed:
  "truthy (error (ui ls)) \<Longrightarrow> \<not> isStreaming (ui ls) \<Longrightarrow>
   truthy (error (ui (fold (process_line env) lines ls)))
   \<and> \<not> isStreaming (ui (fold (process_line env) lines ls))"
proof (induction lines arbitrary: ls)
  case Nil
  then show ?case by simp
next
  case (Cons l lines)
  from process_line_failed [OF Cons.prems, of env l]
  show ?case using Cons.IH [of "process_line env l ls"] by simp
qed

lemma read_loop_failed:
  "truthy (error (ui ls)) \<Longrightarrow> \<not> isStreaming (ui ls) \<Longrightarrow>
   truthy (error (ui (read_loop env dec cs d ls))) \<and> \<not> isStreaming (ui (read_loop env dec cs d ls))"
proof (induction cs arbitrary: d ls)
  case Nil
  then show ?case by simp
next
  case (Cons v cs)
  obtain t d' where dv: "dec d v = (t, d')" by (cases "dec d v")
  have "truthy (error (ui (process_chunk env t ls))) \<and> \<not> isStreaming (ui (process_chunk env t ls))"
    using fold_process_line_failed [OF Cons.prems] by (simp add: ui_process_chunk)
  then show ?case using Cons.IH [of "process_chunk env t ls" d'] dv by simp
qed

text \<open>An update that is not terminal touches neither the error nor the streaming flag.\<close>

lemma apply_update_nonterminal:
  "\<not> terminal k \<Longrightarrow>
   error (apply_update env k d st) = error st
   \<and> isStreaming (apply_update env k d st) = isStreaming st"
  by (cases k) (simp_all add: Let_def)

lemma process_line_nonterminal:
  assumes "case line_update env l of None \<Rightarrow> True | Some k \<Rightarrow> \<not> terminal k"
  shows "error (ui (process_line env l ls)) = error (ui ls)
       \<and> isStreaming (ui (process_line env l ls)) = isStreaming (ui ls)"
proof (cases "js_trim l = [] \<or> starts_with l ''event:'' \<or> \<not> starts_with l ''data:''")
  case True
  then show ?thesis by (auto simp add: process_line_def)
next
  case False
  show ?thesis
  proof (cases "JSON_parse env (js_trim (drop 5 l))")
    case None
    then show ?thesis using False by (simp add: process_line_def Let_def)
  next
    case (Some d)
    show ?thesis
    proof (cases "classify d")
      case None
      then show ?thesis using False Some by (simp add: process_line_def Let_def handle_data_def)
    next
      case (Some k)
      then have "\<not> terminal k"
        using assms False \<open>JSON_parse env (js_trim (drop 5 l)) = Some d\<close>
        by (simp add: line_update_def)
      from apply_update_nonterminal [OF this, of env d "ui ls"]
      show ?thesis
        using False Some \<open>JSON_parse env (js_trim (drop 5 l)) = Some d\<close>
        by (simp add: process_line_def Let_def handle_data_def)
    qed
  qed
qed

lemma fold_process_line_nonterminal:
  "no_terminal env lines \<Longrightarrow>
   error (ui (fold (process_line env) lines ls)) = error (ui ls)
   \<and> isStreaming (ui (fold (process_line env) lines ls)) = isStreaming (ui ls)"
proof (induction lines arbitrary: ls)
  case Nil
  show ?case by simp
next
  case (Cons l lines)
  have hd: "case line_update env l of None \<Rightarrow> True | Some k \<Rightarrow> \<not> terminal k"
    and tl: "no_terminal env lines"
    using Cons.prems by (simp_all add: no_terminal_def)
  from process_line_nonterminal [OF hd, of ls] Cons.IH [OF tl, of "process_line env l ls"]
  show ?case by simp
qed

text \<open>Whenever an error is set, the streaming flag is off.\<close>

lemma apply_update_error_stops:
  assumes "truthy (error st) \<longrightarrow> \<not> isStreaming st"
  shows "truthy (error (apply_update env k d st)) \<longrightarrow> \<not> isStreaming (apply_update env k d st)"
  using assms by (cases k) (simp_all add: Let_def)

lemma process_line_error_stops:
  assumes "truthy (error (ui ls)) \<longrightarrow> \<not> isStreaming (ui ls)"
  shows "truthy (error (ui (process_line env l ls)))
           \<longrightarrow> \<not> isStreaming (ui (process_line env l ls))"
  using assms apply_update_error_stops [OF assms, of env]
  by (simp add: process_line_def Let_def handle_data_def split: option.splits)

lemma fold_process_line_error_stops:
  "truthy (error (ui ls)) \<longrightarrow> \<not> isStreaming (ui ls) \<Longrightarrow>
   truthy (error (ui (fold (process_line env) lines ls)))
     \<longrightarrow> \<not> isStreaming (ui (fold (process_line env) lines ls))"
proof (induction lines arbitrary: ls)
  case Nil
  then show ?case by simp
next
  case (Cons l lines)
  from Cons.IH [OF process_line_error_stops [OF Cons.prems, of env l]]
  show ?case by simp
qed

section \<open>Index keys\<close>

declare show_nat.simps [simp del]

lemma show_nat_last: "show_nat n \<noteq> [] \<and> last (show_nat n) = char_of (48 + n mod 10)"
proof (cases "n < 10")
  case True
  then show ?thesis by (subst (1 2) show_nat.simps) simp
next
  case False
  then show ?thesis by (subst (1 2) show_nat.simps) simp
qed






section \<open>The question field\<close>

text \<open>While the streaming flag is on, the result holds no truthy question.\<close>

lemma digit_not_n: "char_of (48 + n mod 10 :: nat) \<noteq> CHR ''n''"
proof
  assume "char_of (48 + n mod 10 :: nat) = CHR ''n''"
  then have "(of_char (char_of (48 + n mod 10 :: nat)) :: nat) = of_char (CHR ''n'')"
    by (rule arg_cong)
  then have "(48 + n mod 10) mod 256 = (110::nat)"
    by (simp only: of_char_of) simp
  moreover have "n mod 10 < 10" by simp
  ultimately show False by linarith
qed

lemma show_nat_not_question: "show_nat n \<noteq> ''question''"
proof
  assume "show_nat n = ''question''"
  then have "last (show_nat n) = CHR ''n''" by simp
  then show False using show_nat_last [of n] digit_not_n [of n] by simp
qed

lemma question_not_index_key: "''question'' \<notin> set (map show_nat ns)"
proof
  assume "''question'' \<in> set (map show_nat ns)"
  then obtain n where "show_nat n = ''question''" by auto
  then show False using show_nat_not_question by blast
qed

lemma spread_question_None:
  "\<not> (\<exists>kvs. r = Obj kvs) \<Longrightarrow> map_of (js_spread r) ''question'' = None"
proof (cases r)
  case (Arr xs)
  then show ?thesis
    using question_not_index_key [of "[0..<length xs]"] by (simp add: map_of_zip_is_None)
next
  case (Str x)
  then show ?thesis
    using question_not_index_key [of "[0..<length x]"] by (simp add: map_of_zip_is_None)
qed simp_all

lemma spread_question: "get_prop (Obj (js_spread r)) ''question'' = get_prop r ''question''"
proof (cases "\<exists>kvs. r = Obj kvs")
  case True
  then show ?thesis by auto
next
  case False
  have "get_prop (Obj (js_spread r)) ''question'' = Undefined"
    using spread_question_None [OF False] by simp
  moreover have "get_prop r ''question'' = Undefined"
    using False by (cases r) simp_all
  ultimately show ?thesis by simp
qed

lemma or_empty_question:
  "get_prop (js_or r (Obj [])) ''question'' = get_prop r ''question''"
  by (cases r) (simp_all add: js_or_def)

lemma update_other_question:
  "k \<noteq> ''question'' \<Longrightarrow>
   get_prop (Obj (AList.update k v al)) ''question'' = get_prop (Obj al) ''question''"
  by (simp add: update_conv')

lemma apply_update_no_question:
  assumes "isStreaming st \<longrightarrow> \<not> truthy (get_prop (result st) ''question'')"
  shows "isStreaming (apply_update env k d st)
           \<longrightarrow> \<not> truthy (get_prop (result (apply_update env k d st)) ''question'')"
  using assms
  by (cases k)
    (simp_all add: Let_def update_other_question spread_question or_empty_question
       del: get_prop.simps)

lemma process_line_no_question:
  assumes "isStreaming (ui ls) \<longrightarrow> \<not> truthy (get_prop (result (ui ls)) ''question'')"
  shows "isStreaming (ui (process_line env l ls))
           \<longrightarrow> \<not> truthy (get_prop (result (ui (process_line env l ls))) ''question'')"
  using assms apply_update_no_question [OF assms, of env]
  by (simp add: process_line_def Let_def handle_data_def split: option.splits)

lemma fold_process_line_no_question:
  "isStreaming (ui ls) \<longrightarrow> \<not> truthy (get_prop (result (ui ls)) ''question'') \<Longrightarrow>
   isStreaming (ui (fold (process_line env) lines ls))
     \<longrightarrow> \<not> truthy (get_prop (result (ui (fold (process_line env) lines ls))) ''question'')"
proof (induction lines arbitrary: ls)
  case Nil
  then show ?case by simp
next
  case (Cons l lines)
  from Cons.IH [OF process_line_no_question [OF Cons.prems, of env l]]
  show ?case by simp
qed

section \<open>The properties\<close>

subsection \<open>C1: precedence of the classifier\<close>

text \<open>
  C1. The classifier selects at most one update per parsed payload, by first-match
  precedence over the truthiness of fields (for the row count: being defined) in the
  order step, chunk, reasoning, sql, attempts, explanation, natural-language answer,
  row count, error, query id, message containing \<^verbatim>\<open>error\<close>. This is stated for payloads
  that do not carry both a truthy sql and a truthy attempts field. A payload classified
  as a corrected query then yields \<^verbatim>\<open>metadata.auto_fixed = true\<close> and
  \<^verbatim>\<open>metadata.fix_attempts = attempts\<close>.
\<close>

theorem classify_first_match:
  assumes "\<not> (truthy (get_prop d ''sql'') \<and> truthy (get_prop d ''attempts''))"
  shows "classify d = first_match code_order d
       \<and> (classify d = Some SqlCorrected \<longrightarrow>
            get_prop (get_prop (result (handle_data env d st)) ''metadata'') ''auto_fixed'' = Bool True
          \<and> get_prop (get_prop (result (handle_data env d st)) ''metadata'') ''fix_attempts''
              = get_prop d ''attempts'')"
proof -
  have "classify d = first_match code_order d"
    by (cases d) (simp_all add: classify_def code_order_def)
  moreover have "get_prop (get_prop (result (handle_data env d st)) ''metadata'') ''auto_fixed'' = Bool True
          \<and> get_prop (get_prop (result (handle_data env d st)) ''metadata'') ''fix_attempts''
              = get_prop d ''attempts''"
    if "classify d = Some SqlCorrected"
    using that metadata_of_fixed [of "result st" "get_prop d ''attempts''"]
    by (simp add: handle_data_def update_conv')
  ultimately show ?thesis by blast
qed

text \<open>The payload \<^verbatim>\<open>{"attempts":2}\<close> on the state a new question starts from.\<close>

theorem classify_first_match_witness:
  "\<not> (truthy (get_prop (Obj [(''attempts'', Num 2)]) ''sql'')
        \<and> truthy (get_prop (Obj [(''attempts'', Num 2)]) ''attempts''))
   \<and> classify (Obj [(''attempts'', Num 2)]) = Some SqlCorrected
   \<and> first_match code_order (Obj [(''attempts'', Num 2)]) = Some SqlCorrected
   \<and> get_prop (get_prop (result (handle_data sample_env (Obj [(''attempts'', Num 2)])
        (reset_state asked_state))) ''metadata'') ''auto_fixed'' = Bool True
   \<and> get_prop (get_prop (result (handle_data sample_env (Obj [(''attempts'', Num 2)])
        (reset_state asked_state))) ''metadata'') ''fix_attempts'' = Num 2"
  using classify_first_match [of "Obj [(''attempts'', Num 2)]" sample_env "reset_state asked_state"]
  by (simp add: classify_def)

text \<open>
  The order is not the one that starts with the query id: a payload with a step and a
  query id is a step notice for the program, a final result for the order of the
  specification.
\<close>

theorem precedence_counterexample:
  "classify (Obj [(''step'', Str ''parsing''), (''query_id'', Str ''q-1'')]) = Some StepNotice
   \<and> spec_classify (Obj [(''step'', Str ''parsing''), (''query_id'', Str ''q-1'')])
       = Some FinalResult"
  by (simp add: classify_def spec_classify_def spec_order_def present_def)

text \<open>
  On a payload that carries both a truthy sql and attempts, the sql branch is taken:
  the query is replaced and no metadata is written, although the branch for attempts
  reads \<^verbatim>\<open>data.sql\<close>.
\<close>

lemma attempts_with_sql_example:
  "classify (Obj [(''attempts'', Num 2), (''sql'', Str ''SELECT 1 FIX'')]) = Some SqlProduced
   \<and> result (handle_data sample_env (Obj [(''attempts'', Num 2), (''sql'', Str ''SELECT 1 FIX'')])
        (handle_data sample_env (Obj [(''sql'', Str ''SELECT 1'')]) (reset_state asked_state)))
      = Obj [(''sql'', Str ''SELECT 1 FIX'')]"
  by (simp add: classify_def handle_data_def reset_state_def asked_state_def initial_state_def)

subsection \<open>C2: the final result\<close>

text \<open>
  C2. Applying a final result (a payload the classifier takes as one) replaces the
  result by the snapshot: every field reads as it does in the snapshot, so a field
  the snapshot omits becomes absent. The streaming and loading flags are turned off,
  the current step is cleared, the error and the streamed reasoning are left as they
  were, and the status is Succeeded when no error was set.
\<close>

theorem final_result_replaces:
  assumes "classify d = Some FinalResult"
  shows "result (handle_data env d st) = d
       \<and> (\<forall>k. get_prop (result (handle_data env d st)) k = get_prop d k)
       \<and> \<not> isStreaming (handle_data env d st) \<and> \<not> loading (handle_data env d st)
       \<and> currentStep (handle_data env d st) = Str []
       \<and> error (handle_data env d st) = error st
       \<and> streamingReasoning (handle_data env d st) = streamingReasoning st
       \<and> (\<not> truthy (error st) \<longrightarrow> status_of (handle_data env d st) = Succeeded)"
proof -
  have "truthy (get_prop d ''query_id'')"
    using assms by (rule classify_FinalResult)
  then have "truthy d" by (cases d) simp_all
  then show ?thesis using assms by (simp add: handle_data_def status_of_def)
qed

theorem final_result_replaces_witness:
  "classify (Obj [(''query_id'', Str ''q-1'')]) = Some FinalResult
   \<and> result (handle_data sample_env (Obj [(''query_id'', Str ''q-1'')])
        (handle_data sample_env (Obj [(''sql'', Str ''SELECT 1'')]) (reset_state asked_state)))
      = Obj [(''query_id'', Str ''q-1'')]
   \<and> status_of (handle_data sample_env (Obj [(''query_id'', Str ''q-1'')])
        (handle_data sample_env (Obj [(''sql'', Str ''SELECT 1'')]) (reset_state asked_state)))
      = Succeeded"
  using final_result_replaces [of "Obj [(''query_id'', Str ''q-1'')]" sample_env
      "handle_data sample_env (Obj [(''sql'', Str ''SELECT 1'')]) (reset_state asked_state)"]
  by (simp add: classify_def handle_data_def reset_state_def)

text \<open>
  A field the snapshot omits is not retained: the query accumulated from
  \<^verbatim>\<open>{"sql":"SELECT 1"}\<close> is gone after the final result \<^verbatim>\<open>{"query_id":"q-1"}\<close>.
\<close>

theorem final_result_counterexample:
  "get_prop (result (handle_data sample_env (Obj [(''sql'', Str ''SELECT 1'')])
       (reset_state asked_state))) ''sql'' = Str ''SELECT 1''
   \<and> classify (Obj [(''query_id'', Str ''q-1'')]) = Some FinalResult
   \<and> get_prop (Obj [(''query_id'', Str ''q-1'')]) ''sql'' = Undefined
   \<and> get_prop (result (handle_data sample_env (Obj [(''query_id'', Str ''q-1'')])
        (handle_data sample_env (Obj [(''sql'', Str ''SELECT 1'')]) (reset_state asked_state))))
        ''sql'' = Undefined"
  by (simp add: classify_def handle_data_def reset_state_def)

subsection \<open>C3: after a terminal error\<close>

text \<open>
  C3. Once an error update has been applied the status is Failed, and it stays Failed
  with the error set for every later chunk of the stream: the later frames are
  classified and applied like any other, without raising, and none of them clears the
  error or turns the streaming flag back on.
\<close>

theorem failed_is_kept:
  assumes "classify d = Some k" and "k = ExecutionFailed \<or> k = GenericError"
  shows "status_of (handle_data env d st) = Failed
       \<and> status_of (ui (read_loop env dec cs dst (ls\<lparr>ui := handle_data env d st\<rparr>))) = Failed
       \<and> truthy (error (ui (read_loop env dec cs dst (ls\<lparr>ui := handle_data env d st\<rparr>))))"
proof -
  have f: "truthy (error (handle_data env d st)) \<and> \<not> isStreaming (handle_data env d st)"
    using assms classify_ExecutionFailed [of d] classify_GenericError [of d]
    by (auto simp add: handle_data_def)
  have "truthy (error (ui (ls\<lparr>ui := handle_data env d st\<rparr>)))"
       "\<not> isStreaming (ui (ls\<lparr>ui := handle_data env d st\<rparr>))"
    using f by simp_all
  from read_loop_failed [OF this, of env dec cs dst] f
  show ?thesis by (simp add: status_of_def)
qed

theorem failed_is_kept_witness:
  "classify (Obj [(''error'', Str ''syntax error'')]) = Some ExecutionFailed
   \<and> status_of (handle_data sample_env (Obj [(''error'', Str ''syntax error'')])
        (reset_state asked_state)) = Failed
   \<and> status_of (ui (read_loop sample_env utf8_decode error_then_sql None
        ((initial_loop (reset_state asked_state))
           \<lparr>ui := handle_data sample_env (Obj [(''error'', Str ''syntax error'')])
                   (reset_state asked_state)\<rparr>))) = Failed"
proof -
  have c: "classify (Obj [(''error'', Str ''syntax error'')]) = Some ExecutionFailed"
    by (simp add: classify_def)
  from failed_is_kept [OF c, of sample_env "reset_state asked_state" utf8_decode error_then_sql
      None "initial_loop (reset_state asked_state)"] c
  show ?thesis by simp
qed

text \<open>
  A frame that arrives after the error is applied: after \<^verbatim>\<open>{"error":"syntax error"}\<close> the
  status is Failed and no result is held; the frame \<^verbatim>\<open>{"sql":"SELECT 1"}\<close> that follows
  it in the same stream writes the query into the result.
\<close>

theorem late_frame_counterexample:
  "status_of (ui (read_loop sample_env utf8_decode error_only None
       (initial_loop (reset_state asked_state)))) = Failed
   \<and> result (ui (read_loop sample_env utf8_decode error_only None
       (initial_loop (reset_state asked_state)))) = Null
   \<and> result (ui (read_loop sample_env utf8_decode error_then_sql None
       (initial_loop (reset_state asked_state)))) = Obj [(''sql'', Str ''SELECT 1'')]"
  by code_simp

subsection \<open>C4: a stream that ends without a terminal update\<close>

text \<open>
  C4. When the transport answers with a success status and a body whose stream ends
  cleanly, and no line of the stream applied a terminal update, the ask operation ends
  with the loading flag off, no error reported and a status that is not Failed: the
  state is the one the loop left, partial result included. (\<open>Response\<close> is the answer
  that has a body; the answer without one is \<open>NoBody\<close>.)
\<close>

theorem truncated_stream_keeps_partial:
  assumes "js_trim (question st) \<noteq> []" and "js_trim (databaseId st) \<noteq> []"
    and "200 \<le> status" and "status \<le> 299"
    and "no_terminal env (complete_lines (concat (decode_all dec d0 chunks)))"
  shows "error (handleAsk env dec d0 (Response status chunks Done) st) = Null
       \<and> status_of (handleAsk env dec d0 (Response status chunks Done) st) \<noteq> Failed
       \<and> handleAsk env dec d0 (Response status chunks Done) st
         = (ui (read_loop env dec chunks d0 (initial_loop (reset_state st))))\<lparr>loading := False\<rparr>"
proof -
  let ?S = "ui (read_loop env dec chunks d0 (initial_loop (reset_state st)))"
  have h: "handleAsk env dec d0 (Response status chunks Done) st = ?S\<lparr>loading := False\<rparr>"
    using assms(1-4) by (simp add: handleAsk_def finally_block_def)
  have start: "error (ui (initial_loop (reset_state st))) = Null"
    "isStreaming (ui (initial_loop (reset_state st)))"
    by (simp_all add: initial_loop_def reset_state_def)
  have "error ?S = Null \<and> isStreaming ?S"
    using fold_process_line_nonterminal [OF assms(5), of "initial_loop (reset_state st)"] start
    by (simp add: ui_read_loop_lines)
  then show ?thesis using h by (simp add: status_of_def)
qed

theorem truncated_stream_keeps_partial_witness:
  "js_trim (question asked_state) \<noteq> [] \<and> js_trim (databaseId asked_state) \<noteq> []
   \<and> (200::nat) \<le> 200 \<and> (200::nat) \<le> 299
   \<and> no_terminal sample_env (complete_lines (concat (decode_all utf8_decode None step_then_sql)))
   \<and> error (handleAsk sample_env utf8_decode None (Response 200 step_then_sql Done) asked_state)
       = Null
   \<and> status_of (handleAsk sample_env utf8_decode None (Response 200 step_then_sql Done) asked_state)
       \<noteq> Failed"
proof -
  have q: "js_trim (question asked_state) \<noteq> []" by code_simp
  have b: "js_trim (databaseId asked_state) \<noteq> []" by code_simp
  have n: "no_terminal sample_env (complete_lines (concat (decode_all utf8_decode None step_then_sql)))"
    by code_simp
  have lo: "(200::nat) \<le> 200" and hi: "(200::nat) \<le> 299" by simp_all
  from truncated_stream_keeps_partial [OF q b lo hi n] q b lo hi n
  show ?thesis by blast
qed

text \<open>
  The stream \<^verbatim>\<open>{"step":"parsing"}\<close>, \<^verbatim>\<open>{"sql":"SELECT 1"}\<close> ends cleanly without a terminal
  update: no error is reported, the status is not Failed, and the partial result is
  kept.
\<close>

theorem truncated_stream_counterexample:
  "error (handleAsk sample_env utf8_decode None (Response 200 step_then_sql Done) asked_state) = Null
   \<and> status_of (handleAsk sample_env utf8_decode None (Response 200 step_then_sql Done) asked_state)
       = Streaming
   \<and> result (handleAsk sample_env utf8_decode None (Response 200 step_then_sql Done) asked_state)
       = Obj [(''sql'', Str ''SELECT 1'')]"
  by code_simp

text \<open>
  An answer without a body is another matter: with a success status and nothing to
  read, taking the reader throws and the error is reported.
\<close>

lemma no_body_reports_error:
  assumes "js_trim (question st) \<noteq> []" and "js_trim (databaseId st) \<noteq> []"
    and "200 \<le> status" and "status \<le> 299" and "msg \<noteq> []"
  shows "error (handleAsk env dec d0 (NoBody status msg) st) = Str msg
       \<and> status_of (handleAsk env dec d0 (NoBody status msg) st) = Failed"
  using assms
  by (simp add: handleAsk_def finally_block_def catch_error_def reset_state_def js_or_def
        status_of_def)

subsection \<open>C5: independence of the chunking\<close>

text \<open>
  C5. With a streaming decoder, two sequences of chunks that cut the same bytes
  differently leave the loop in the same state: the same frames were dispatched, in the
  same order and with the same event names, and the component state is the same; the
  ask operation ends in the same state.
\<close>

theorem chunking_invariance:
  assumes "streaming_decoder dec" and "concat chunks = concat chunks'"
  shows "read_loop env dec chunks d0 (initial_loop st) = read_loop env dec chunks' d0 (initial_loop st)
       \<and> handleAsk env dec d0 (Response status chunks e) st0
         = handleAsk env dec d0 (Response status chunks' e) st0"
proof -
  have texts: "concat (decode_all dec d0 chunks) = concat (decode_all dec d0 chunks')"
    using assms by (simp add: decode_all_concat)
  have loops: "read_loop env dec chunks d0 (initial_loop s) = read_loop env dec chunks' d0 (initial_loop s)"
    for s
    using texts by (simp add: read_loop_lines)
  show ?thesis
    using loops by (simp add: handleAsk_def)
qed

text \<open>The stream cut inside a character and inside a line, against the stream in one chunk.\<close>

theorem chunking_invariance_witness:
  \<open>streaming_decoder utf8_decode \<and> concat split_chunks = concat whole_chunk
   \<and> read_loop sample_env utf8_decode split_chunks None (initial_loop (reset_state asked_state))
       = read_loop sample_env utf8_decode whole_chunk None (initial_loop (reset_state asked_state))
   \<and> emitted (read_loop sample_env utf8_decode split_chunks None
        (initial_loop (reset_state asked_state)))
       = [(Str (''caf'' @ [CHR 0xE9]), ''{"chunk":"A"}'')]
   \<and> handleAsk sample_env utf8_decode None (Response 200 split_chunks Done) asked_state
       = handleAsk sample_env utf8_decode None (Response 200 whole_chunk Done) asked_state\<close>
proof -
  have c: "concat split_chunks = concat whole_chunk"
    by (simp add: split_chunks_def whole_chunk_def utf8_bytes_def)
  have m: \<open>emitted (read_loop sample_env utf8_decode split_chunks None
        (initial_loop (reset_state asked_state)))
       = [(Str (''caf'' @ [CHR 0xE9]), ''{"chunk":"A"}'')]\<close>
    by code_simp
  from chunking_invariance [OF utf8_decode_streaming c, of sample_env None
      "reset_state asked_state" 200 Done asked_state] utf8_decode_streaming c m
  show ?thesis by blast
qed

subsection \<open>C6: the execution outcome\<close>




subsection \<open>C7: accumulation of the reasoning\<close>

text \<open>
  C7. On an empty streamed reasoning, a chunk \<open>a\<close> followed by a chunk \<open>b\<close> gives the
  reasoning \<open>a @ b\<close>, and a full reasoning \<open>c\<close> after them gives \<open>c\<close>: chunks append
  in order, a full reasoning replaces.
\<close>

theorem reasoning_accumulation:
  assumes "a \<noteq> []" and "b \<noteq> []" and "c \<noteq> []" and "streamingReasoning st = Str []"
  shows "streamingReasoning (handle_data env (Obj [(''chunk'', Str b)])
           (handle_data env (Obj [(''chunk'', Str a)]) st)) = Str (a @ b)
       \<and> streamingReasoning (handle_data env (Obj [(''reasoning'', Str c)])
           (handle_data env (Obj [(''chunk'', Str b)])
             (handle_data env (Obj [(''chunk'', Str a)]) st))) = Str c"
  using assms by (simp add: handle_data_def classify_def js_plus_def)

theorem reasoning_accumulation_witness:
  "streamingReasoning (reset_state asked_state) = Str []
   \<and> streamingReasoning (handle_data sample_env (Obj [(''chunk'', Str ''B'')])
        (handle_data sample_env (Obj [(''chunk'', Str ''A'')]) (reset_state asked_state)))
       = Str ''AB''
   \<and> streamingReasoning (handle_data sample_env (Obj [(''reasoning'', Str ''C'')])
        (handle_data sample_env (Obj [(''chunk'', Str ''B'')])
          (handle_data sample_env (Obj [(''chunk'', Str ''A'')]) (reset_state asked_state))))
       = Str ''C''"
  using reasoning_accumulation [of "''A''" "''B''" "''C''" "reset_state asked_state" sample_env]
  by (simp add: reset_state_def)

subsection \<open>C8: the guard of saving to the knowledge base\<close>

text \<open>
  C8. \<open>saveToKnowledgeBase\<close> posts its request exactly when a result is held and its
  \<^verbatim>\<open>sql\<close> and \<^verbatim>\<open>question\<close> are both truthy; when it posts nothing it leaves the state as
  it was, and nothing is reported. At every state reached while one ask operation
  processes the lines of its stream, and at the state it ends in, it posts nothing
  while the streaming flag is on. There is no test of the status beyond that: with both
  fields held it posts when the status is Failed as well.
\<close>

theorem save_guard:
  assumes "js_trim (question st) \<noteq> []" and "js_trim (databaseId st) \<noteq> []"
  shows "(fst (saveToKnowledgeBase outcome s) \<noteq> None
            \<longleftrightarrow> truthy (result s) \<and> truthy (get_prop (result s) ''sql'')
                \<and> truthy (get_prop (result s) ''question''))
       \<and> (fst (saveToKnowledgeBase outcome s) = None \<longrightarrow> saveToKnowledgeBase outcome s = (None, s))
       \<and> (isStreaming (ui (fold (process_line env) lines (initial_loop (reset_state st))))
            \<longrightarrow> saveToKnowledgeBase outcome
                  (ui (fold (process_line env) lines (initial_loop (reset_state st))))
                = (None, ui (fold (process_line env) lines (initial_loop (reset_state st)))))
       \<and> (isStreaming (handleAsk env dec d0 resp st)
            \<longrightarrow> saveToKnowledgeBase outcome (handleAsk env dec d0 resp st)
                = (None, handleAsk env dec d0 resp st))"
proof -
  let ?held = "\<lambda>x. truthy (result x) \<and> truthy (get_prop (result x) ''sql'')
          \<and> truthy (get_prop (result x) ''question'')"
  have posted: "fst (saveToKnowledgeBase outcome x) \<noteq> None" if "?held x" for x
    using that by (simp add: saveToKnowledgeBase_def)
  have skipped: "saveToKnowledgeBase outcome x = (None, x)" if "\<not> ?held x" for x
    using that by (auto simp add: saveToKnowledgeBase_def)
  have start: "isStreaming (ui (initial_loop (reset_state st)))
                 \<longrightarrow> \<not> truthy (get_prop (result (ui (initial_loop (reset_state st)))) ''question'')"
    by (simp add: initial_loop_def reset_state_def)
  have lines: "isStreaming (ui (fold (process_line env) ls (initial_loop (reset_state st))))
      \<longrightarrow> \<not> truthy (get_prop (result (ui (fold (process_line env) ls
                (initial_loop (reset_state st))))) ''question'')"
    for ls
    by (rule fold_process_line_no_question [OF start])
  have loop: "isStreaming (ui (read_loop env dec cs d0 (initial_loop (reset_state st))))
      \<longrightarrow> \<not> truthy (get_prop (result (ui (read_loop env dec cs d0
                (initial_loop (reset_state st))))) ''question'')"
    for cs
    using lines by (simp add: ui_read_loop_lines)
  have ask: "isStreaming (handleAsk env dec d0 resp st)
      \<longrightarrow> \<not> truthy (get_prop (result (handleAsk env dec d0 resp st)) ''question'')"
  proof (cases resp)
    case (Rejected msg)
    then show ?thesis using assms by (simp add: handleAsk_def finally_block_def catch_error_def)
  next
    case (Response status cs e)
    then show ?thesis
      using assms loop [of cs]
      by (cases e) (simp_all add: handleAsk_def finally_block_def catch_error_def)
  next
    case (NoBody status msg)
    then show ?thesis using assms by (simp add: handleAsk_def finally_block_def catch_error_def)
  qed
  have guard: "fst (saveToKnowledgeBase outcome s) \<noteq> None \<longleftrightarrow> ?held s"
  proof (cases "?held s")
    case True
    with posted [of s] show ?thesis by blast
  next
    case False
    with skipped [of s] show ?thesis by simp
  qed
  have noop: "fst (saveToKnowledgeBase outcome s) = None \<longrightarrow> saveToKnowledgeBase outcome s = (None, s)"
  proof (cases "?held s")
    case True
    with posted [of s] show ?thesis by blast
  next
    case False
    with skipped [of s] show ?thesis by simp
  qed
  show ?thesis
    using guard noop lines [of lines] ask
      skipped [of "ui (fold (process_line env) lines (initial_loop (reset_state st)))"]
      skipped [of "handleAsk env dec d0 resp st"]
    by blast
qed

theorem save_guard_witness:
  "js_trim (question asked_state) \<noteq> [] \<and> js_trim (databaseId asked_state) \<noteq> []
   \<and> isStreaming (handleAsk sample_env utf8_decode None (Response 200 step_then_sql Done)
        asked_state)
   \<and> saveToKnowledgeBase SaveOk
        (handleAsk sample_env utf8_decode None (Response 200 step_then_sql Done) asked_state)
     = (None, handleAsk sample_env utf8_decode None (Response 200 step_then_sql Done) asked_state)
   \<and> fst (saveToKnowledgeBase SaveOk (asked_state\<lparr>result :=
        Obj [(''question'', Str ''top 10 customers''), (''sql'', Str ''SELECT 1'')]\<rparr>)) \<noteq> None"
proof -
  have q: "js_trim (question asked_state) \<noteq> []" by code_simp
  have b: "js_trim (databaseId asked_state) \<noteq> []" by code_simp
  have i: "isStreaming (handleAsk sample_env utf8_decode None (Response 200 step_then_sql Done)
        asked_state)"
    by code_simp
  have h: "truthy (result (asked_state\<lparr>result :=
        Obj [(''question'', Str ''top 10 customers''), (''sql'', Str ''SELECT 1'')]\<rparr>))
      \<and> truthy (get_prop (result (asked_state\<lparr>result :=
        Obj [(''question'', Str ''top 10 customers''), (''sql'', Str ''SELECT 1'')]\<rparr>)) ''sql'')
      \<and> truthy (get_prop (result (asked_state\<lparr>result :=
        Obj [(''question'', Str ''top 10 customers''), (''sql'', Str ''SELECT 1'')]\<rparr>))
          ''question'')"
    by simp
  from save_guard [OF q b, of SaveOk
      "asked_state\<lparr>result :=
        Obj [(''question'', Str ''top 10 customers''), (''sql'', Str ''SELECT 1'')]\<rparr>"
      sample_env "[]" utf8_decode None "Response 200 step_then_sql Done"] q b i h
  show ?thesis by blast
qed

text \<open>
  After a final result with a question and a successful execution, a query and then
  an error, the status is Failed, the save button is rendered and enabled, and the
  request is posted.
\<close>

theorem save_guard_counterexample:
  "status_of (handleAsk sample_env utf8_decode None (Response 200 final_sql_error Done) asked_state)
     = Failed
   \<and> save_button_enabled
        (handleAsk sample_env utf8_decode None (Response 200 final_sql_error Done) asked_state)
   \<and> fst (saveToKnowledgeBase SaveOk
        (handleAsk sample_env utf8_decode None (Response 200 final_sql_error Done) asked_state))
     = Some (Obj [(''database_id'', Str ''db1''), (''question'', Str ''top 10 customers''),
                  (''sql'', Str ''SELECT 1''), (''description'', Null)])"
  by code_simp

subsection \<open>C9: what is shown together\<close>

text \<open>
  C9. At every state reached while one ask operation processes the lines of its stream,
  and at the state it ends in, the error message and the streaming indicator are never
  shown together. A held result may be shown together with either.
\<close>

theorem error_and_progress_exclusive:
  assumes "js_trim (question st) \<noteq> []" and "js_trim (databaseId st) \<noteq> []"
  shows "\<not> (error_shown (ui (fold (process_line env) lines (initial_loop (reset_state st))))
            \<and> step_shown (ui (fold (process_line env) lines (initial_loop (reset_state st)))))
       \<and> \<not> (error_shown (handleAsk env dec d0 resp st) \<and> step_shown (handleAsk env dec d0 resp st))"
proof -
  have start: "truthy (error (ui (initial_loop (reset_state st))))
                 \<longrightarrow> \<not> isStreaming (ui (initial_loop (reset_state st)))"
    by (simp add: initial_loop_def reset_state_def)
  have lines: "truthy (error (ui (fold (process_line env) ls (initial_loop (reset_state st)))))
                 \<longrightarrow> \<not> isStreaming (ui (fold (process_line env) ls (initial_loop (reset_state st))))"
    for ls
    by (rule fold_process_line_error_stops [OF start])
  have loop: "truthy (error (ui (read_loop env dec cs d0 (initial_loop (reset_state st)))))
                 \<longrightarrow> \<not> isStreaming (ui (read_loop env dec cs d0 (initial_loop (reset_state st))))"
    for cs
    using lines by (simp add: ui_read_loop_lines)
  have "truthy (error (handleAsk env dec d0 resp st)) \<longrightarrow> \<not> isStreaming (handleAsk env dec d0 resp st)"
  proof (cases resp)
    case (Rejected msg)
    then show ?thesis using assms by (simp add: handleAsk_def finally_block_def catch_error_def)
  next
    case (Response status cs e)
    then show ?thesis
      using assms loop [of cs]
      by (cases e) (simp_all add: handleAsk_def finally_block_def catch_error_def)
  next
    case (NoBody status msg)
    then show ?thesis using assms by (simp add: handleAsk_def finally_block_def catch_error_def)
  qed
  then show ?thesis
    using lines [of lines] by (auto simp add: error_shown_def step_shown_def)
qed

theorem error_and_progress_exclusive_witness:
  "js_trim (question asked_state) \<noteq> [] \<and> js_trim (databaseId asked_state) \<noteq> []
   \<and> error_shown (handleAsk sample_env utf8_decode None (Response 200 sql_then_error Done)
        asked_state)
   \<and> \<not> step_shown (handleAsk sample_env utf8_decode None (Response 200 sql_then_error Done)
        asked_state)"
proof -
  have q: "js_trim (question asked_state) \<noteq> []" by code_simp
  have b: "js_trim (databaseId asked_state) \<noteq> []" by code_simp
  have e: "error_shown (handleAsk sample_env utf8_decode None (Response 200 sql_then_error Done)
        asked_state)"
    by code_simp
  from error_and_progress_exclusive [OF q b, of sample_env "[]" utf8_decode None
      "Response 200 sql_then_error Done"] q b e
  show ?thesis by blast
qed

text \<open>
  After \<^verbatim>\<open>{"sql":"SELECT 1"}\<close> and \<^verbatim>\<open>{"error":"syntax error"}\<close> the error message and the
  result accumulated before it are both shown.
\<close>

theorem result_and_error_counterexample:
  "error_shown (handleAsk sample_env utf8_decode None (Response 200 sql_then_error Done) asked_state)
   \<and> results_shown (handleAsk sample_env utf8_decode None (Response 200 sql_then_error Done)
        asked_state)
   \<and> result (handleAsk sample_env utf8_decode None (Response 200 sql_then_error Done) asked_state)
       = Obj [(''sql'', Str ''SELECT 1'')]"
  by code_simp

subsection \<open>C10: the event name\<close>

text \<open>
  C10. Two streams whose terminated lines are the same once the event lines are left out
  dispatch the same payloads in the same order and leave the same component state; the
  ask operation ends in the same state. The event name has no effect.
\<close>

theorem event_names_irrelevant:
  assumes "without_events (complete_lines (concat (decode_all dec d0 chunks)))
         = without_events (complete_lines (concat (decode_all dec d0 chunks')))"
  shows "ui (read_loop env dec chunks d0 (initial_loop st))
         = ui (read_loop env dec chunks' d0 (initial_loop st))
       \<and> map snd (emitted (read_loop env dec chunks d0 (initial_loop st)))
         = map snd (emitted (read_loop env dec chunks' d0 (initial_loop st)))
       \<and> handleAsk env dec d0 (Response status chunks e) st0
         = handleAsk env dec d0 (Response status chunks' e) st0"
proof -
  have sv: "same_view (read_loop env dec chunks d0 (initial_loop s))
              (read_loop env dec chunks' d0 (initial_loop s))"
    for s
    using same_view_read_loop [of env dec chunks d0 s] same_view_read_loop [of env dec chunks' d0 s]
      assms
    by (metis same_view_sym same_view_trans)
  have "ui (read_loop env dec chunks d0 (initial_loop s))
        = ui (read_loop env dec chunks' d0 (initial_loop s))"
    for s
    using sv [of s] by (simp add: same_view_def)
  then show ?thesis
    using sv [of st] by (simp add: handleAsk_def same_view_def)
qed

text \<open>The frame \<^verbatim>\<open>{"chunk":"A"}\<close> under the event name \<^verbatim>\<open>reasoning\<close> and under none.\<close>

theorem event_names_irrelevant_witness:
  "without_events (complete_lines (concat (decode_all utf8_decode None named_frame)))
     = without_events (complete_lines (concat (decode_all utf8_decode None unnamed_frame)))
   \<and> emitted (read_loop sample_env utf8_decode named_frame None
        (initial_loop (reset_state asked_state)))
     \<noteq> emitted (read_loop sample_env utf8_decode unnamed_frame None
        (initial_loop (reset_state asked_state)))
   \<and> streamingReasoning (handleAsk sample_env utf8_decode None (Response 200 named_frame Done)
        asked_state) = Str ''A''
   \<and> handleAsk sample_env utf8_decode None (Response 200 named_frame Done) asked_state
     = handleAsk sample_env utf8_decode None (Response 200 unnamed_frame Done) asked_state"
proof -
  have w: "without_events (complete_lines (concat (decode_all utf8_decode None named_frame)))
     = without_events (complete_lines (concat (decode_all utf8_decode None unnamed_frame)))"
    by code_simp
  have n: "emitted (read_loop sample_env utf8_decode named_frame None
        (initial_loop (reset_state asked_state)))
     \<noteq> emitted (read_loop sample_env utf8_decode unnamed_frame None
        (initial_loop (reset_state asked_state)))"
    by code_simp
  have r: "streamingReasoning (handleAsk sample_env utf8_decode None
        (Response 200 named_frame Done) asked_state) = Str ''A''"
    by code_simp
  from event_names_irrelevant [OF w, of sample_env "reset_state asked_state" 200 Done asked_state]
    w n r
  show ?thesis by blast
qed

end
